theory Spec2Isabelle
  imports Complex_Main "HOL-Library.Sublist"
begin

section \<open>JavaScript strings\<close>

text \<open>
  A JavaScript string is a sequence of UTF-16 code units; a code unit is modelled as a
  natural number. \<open>js\<close> gives the code units of an ASCII literal.
\<close>

type_synonym jsstr = "nat list"

definition js :: "string \<Rightarrow> jsstr" where
  "js s = map of_char s"

text \<open>\<^verbatim>\<open>s.slice(a, b)\<close> for indices that are natural numbers.\<close>

definition slice :: "jsstr \<Rightarrow> nat \<Rightarrow> nat \<Rightarrow> jsstr" where
  "slice s a b = take (b - a) (drop a s)"

text \<open>
  The white space of ECMAScript (WhiteSpace and LineTerminator): what \<^verbatim>\<open>\s\<close> matches and
  what \<^verbatim>\<open>trim()\<close> strips. TAB, LF, VT, FF, CR, SP, NBSP, U+1680, U+2000 to U+200A,
  U+2028, U+2029, U+202F, U+205F, U+3000 and U+FEFF.
\<close>

definition is_space :: "nat \<Rightarrow> bool" where
  "is_space c \<longleftrightarrow>
     c \<in> set [9, 10, 11, 12, 13, 32, 160, 5760, 8232, 8233, 8239, 8287, 12288, 65279]
     \<or> (8192 \<le> c \<and> c \<le> 8202)"

text \<open>\<^verbatim>\<open>\d\<close> matches the ten ASCII digits only.\<close>

definition is_digit :: "nat \<Rightarrow> bool" where
  "is_digit c \<longleftrightarrow> 48 \<le> c \<and> c \<le> 57"

text \<open>
  Under the flag \<^verbatim>\<open>i\<close> (without \<^verbatim>\<open>u\<close>) two code units match when their canonical forms
  (upper case) agree, and a code unit from 128 on is never canonicalised to one below 128.
  Against an ASCII letter of the pattern this is the comparison of ASCII upper cases.
\<close>

definition ascii_upper :: "nat \<Rightarrow> nat" where
  "ascii_upper c = (if 97 \<le> c \<and> c \<le> 122 then c - 32 else c)"

definition trim :: "jsstr \<Rightarrow> jsstr" where
  "trim s = rev (dropWhile is_space (rev (dropWhile is_space s)))"

section \<open>Regular expressions with backtracking\<close>

text \<open>
  The fragment of ECMAScript patterns that the citation pattern uses: a character class,
  a sequence, and the greedy quantifiers \<^verbatim>\<open>?\<close>, \<^verbatim>\<open>*\<close> and \<^verbatim>\<open>+\<close>.

  \<open>ends r s\<close> lists the rests of \<open>s\<close> after every way of matching \<open>r\<close> at the start of
  \<open>s\<close>, in the order in which the backtracking matcher tries them: a greedy quantifier
  tries one more iteration before it tries to stop. As in ECMAScript, an iteration beyond
  the minimum of the quantifier that consumes nothing is rejected; \<open>repeat\<close> therefore
  needs at most \<open>length s\<close> iterations.
\<close>

datatype rx = Cls "nat \<Rightarrow> bool" | Seq rx rx | Opt rx | Star rx | Plus rx

definition lit :: "char \<Rightarrow> rx" where
  "lit ch = Cls (\<lambda>c. c = of_char ch)"

definition lit_i :: "char \<Rightarrow> rx" where
  "lit_i ch = Cls (\<lambda>c. ascii_upper c = ascii_upper (of_char ch))"

fun repeat :: "(jsstr \<Rightarrow> jsstr list) \<Rightarrow> nat \<Rightarrow> jsstr \<Rightarrow> jsstr list" where
  "repeat f 0 s = [s]"
| "repeat f (Suc n) s =
     concat (map (\<lambda>s'. if length s' < length s then repeat f n s' else []) (f s)) @ [s]"

fun ends :: "rx \<Rightarrow> jsstr \<Rightarrow> jsstr list" where
  "ends (Cls P) s = (case s of [] \<Rightarrow> [] | c # cs \<Rightarrow> if P c then [cs] else [])"
| "ends (Seq a b) s = concat (map (\<lambda>s'. ends b s') (ends a s))"
| "ends (Opt a) s = filter (\<lambda>s'. length s' < length s) (ends a s) @ [s]"
| "ends (Star a) s = repeat (\<lambda>t. ends a t) (length s) s"
| "ends (Plus a) s =
     concat (map (\<lambda>s'. repeat (\<lambda>t. ends a t) (length s') s') (ends a s))"

section \<open>ChatMessage: extractCitations\<close>

text \<open>
  \<^verbatim>\<open>const citationRegex = /\(Page\s+(\d+(?:,?\s*(?:and\s+)?\d+)*)\)/gi;\<close>

  The pattern in three pieces: what stands before the capture group, the group, and what
  stands after it.
\<close>

definition rx_open :: rx where
  "rx_open = Seq (lit CHR ''('') (Seq (lit_i CHR ''P'') (Seq (lit_i CHR ''a'')
     (Seq (lit_i CHR ''g'') (Seq (lit_i CHR ''e'') (Plus (Cls is_space))))))"

definition rx_pages :: rx where
  "rx_pages = Seq (Plus (Cls is_digit))
     (Star (Seq (Opt (lit CHR '','')) (Seq (Star (Cls is_space))
       (Seq (Opt (Seq (lit_i CHR ''a'') (Seq (lit_i CHR ''n'') (Seq (lit_i CHR ''d'')
          (Plus (Cls is_space)))))) (Plus (Cls is_digit))))))"

definition rx_close :: rx where
  "rx_close = lit CHR '')''"

text \<open>
  The result of \<^verbatim>\<open>exec\<close>: \<^verbatim>\<open>match.index\<close>, \<^verbatim>\<open>match[0]\<close> and \<^verbatim>\<open>match[1]\<close>.
\<close>

record regmatch =
  m_index :: nat
  m_all :: jsstr
  m_pages :: jsstr

text \<open>
  All ways of matching the whole pattern at the start of \<open>s\<close>, in backtracking order,
  each as the rests after the three pieces; the matcher returns the first.
\<close>

definition citation_paths :: "jsstr \<Rightarrow> (jsstr \<times> jsstr \<times> jsstr) list" where
  "citation_paths s =
     concat (map (\<lambda>s1. concat (map (\<lambda>s2. map (\<lambda>s3. (s1, s2, s3)) (ends rx_close s2))
       (ends rx_pages s1))) (ends rx_open s))"

definition citation_at :: "jsstr \<Rightarrow> (jsstr \<times> jsstr) option" where
  "citation_at s =
     (case citation_paths s of
        [] \<Rightarrow> None
      | (s1, s2, s3) # _ \<Rightarrow>
          Some (take (length s - length s3) s, take (length s1 - length s2) s1))"

text \<open>
  \<^verbatim>\<open>citationRegex.exec(text)\<close> with the flag \<^verbatim>\<open>g\<close>, the pattern's \<^verbatim>\<open>lastIndex\<close> being
  \<open>i\<close>: the match at the least index from \<open>i\<close> on, or null.
\<close>

function exec_from :: "jsstr \<Rightarrow> nat \<Rightarrow> regmatch option" where
  "exec_from text i =
     (if length text < i then None
      else case citation_at (drop i text) of
             Some (a, p) \<Rightarrow> Some \<lparr>m_index = i, m_all = a, m_pages = p\<rparr>
           | None \<Rightarrow> exec_from text (Suc i))"
  by pat_completeness auto
termination
  by (relation "measure (\<lambda>(text, i). Suc (length text) - i)") auto

declare exec_from.simps [simp del]

subsection \<open>A match is a non-empty piece of the text\<close>

lemma repeat_suffix:
  assumes "\<And>t u. u \<in> set (f t) \<Longrightarrow> suffix u t"
  shows "u \<in> set (repeat f n s) \<Longrightarrow> suffix u s"
proof (induction n arbitrary: s)
  case 0
  then show ?case by simp
next
  case (Suc n)
  then show ?case
    using assms by (auto split: if_splits intro: suffix_order.trans)
qed

lemma ends_suffix: "u \<in> set (ends r s) \<Longrightarrow> suffix u s"
proof (induction r s arbitrary: u rule: ends.induct)
  case (1 P s)
  then show ?case by (auto split: list.splits if_splits simp: suffix_Cons)
next
  case (2 a b s)
  then show ?case by (auto intro: suffix_order.trans)
next
  case (3 a s)
  then show ?case by auto
next
  case (4 a s)
  then show ?case using repeat_suffix [of "\<lambda>t. ends a t"] by auto
next
  case (5 a s)
  from "5.prems" obtain s' where s': "s' \<in> set (ends a s)"
    and u: "u \<in> set (repeat (\<lambda>t. ends a t) (length s') s')" by auto
  have "\<And>t v. v \<in> set (ends a t) \<Longrightarrow> suffix v t" using "5.IH"(2) [OF s'] .
  then have "suffix u s'" using u by (rule repeat_suffix)
  moreover have "suffix s' s" using "5.IH"(1) s' .
  ultimately show ?case by (rule suffix_order.trans)
qed

lemma ends_Cls_Seq_shorter:
  assumes "u \<in> set (ends (Seq (Cls P) r) s)"
  shows "length u < length s"
proof -
  from assms obtain c cs where s: "s = c # cs" and "u \<in> set (ends r cs)"
    by (auto split: list.splits if_splits)
  then have "suffix u cs" by (simp add: ends_suffix)
  then have "length u \<le> length cs" by (rule suffix_length_le)
  with s show ?thesis by simp
qed

lemma ends_open_shorter: "u \<in> set (ends rx_open s) \<Longrightarrow> length u < length s"
  unfolding rx_open_def lit_def by (rule ends_Cls_Seq_shorter)

lemma citation_at_Some:
  assumes "citation_at s = Some (a, p)"
  shows "a \<noteq> [] \<and> prefix a s"
proof -
  from assms obtain s1 s2 s3 rest where c: "citation_paths s = (s1, s2, s3) # rest"
    and a: "a = take (length s - length s3) s"
    by (auto simp: citation_at_def split: list.splits)
  have "(s1, s2, s3) \<in> set (citation_paths s)" by (simp add: c)
  then have s1: "s1 \<in> set (ends rx_open s)"
    and s2: "s2 \<in> set (ends rx_pages s1)" and s3: "s3 \<in> set (ends rx_close s2)"
    by (auto simp: citation_paths_def)
  have "length s3 \<le> length s2" using s3 by (intro suffix_length_le ends_suffix)
  moreover have "length s2 \<le> length s1" using s2 by (intro suffix_length_le ends_suffix)
  moreover have "length s1 < length s" using s1 by (rule ends_open_shorter)
  ultimately have "length s3 < length s" by simp
  then have "a \<noteq> []" using a by auto
  moreover have "prefix a s" using a by (simp add: take_is_prefix)
  ultimately show ?thesis by simp
qed

lemma exec_from_Some:
  "exec_from tx i = Some m \<Longrightarrow>
     i \<le> m_index m \<and> m_all m \<noteq> [] \<and> m_index m + length (m_all m) \<le> length tx
     \<and> m_all m = take (length (m_all m)) (drop (m_index m) tx)"
proof (induction tx i rule: exec_from.induct)
  case (1 tx i)
  show ?case
  proof (cases "length tx < i")
    case True
    with "1.prems" show ?thesis by (simp add: exec_from.simps)
  next
    case False
    show ?thesis
    proof (cases "citation_at (drop i tx)")
      case None
      with False "1.prems" have "exec_from tx (Suc i) = Some m"
        by (simp add: exec_from.simps [of tx i])
      with "1.IH" False None show ?thesis by fastforce
    next
      case (Some ap)
      obtain a p where ap: "ap = (a, p)" by (cases ap)
      with Some False "1.prems" have m: "m = \<lparr>m_index = i, m_all = a, m_pages = p\<rparr>"
        by (simp add: exec_from.simps [of tx i])
      from Some ap have "a \<noteq> []" and pre: "prefix a (drop i tx)"
        using citation_at_Some by blast+
      from pre have "length a \<le> length (drop i tx)" by (rule prefix_length_le)
      moreover from pre have "a = take (length a) (drop i tx)"
        by (metis append_eq_conv_conj prefix_def)
      ultimately show ?thesis using m \<open>a \<noteq> []\<close> False by simp
    qed
  qed
qed

subsection \<open>The loop of extractCitations\<close>

text \<open>
  A part is \<^verbatim>\<open>{ type: 'text', content }\<close> or \<^verbatim>\<open>{ type: 'citation', content, pages }\<close>.
\<close>

datatype part = TextPart (content: jsstr) | CitationPart (content: jsstr) (pages: jsstr)

text \<open>
  \<^verbatim>\<open>while ((match = citationRegex.exec(text)) !== null) { ... }\<close>

  The loop keeps \<^verbatim>\<open>lastIndex = match.index + match[0].length\<close>, which is also the value
  \<^verbatim>\<open>exec\<close> leaves in the pattern's own \<^verbatim>\<open>lastIndex\<close>; the pattern is created by each call
  of extractCitations, so both start at 0. The loop returns the parts and the final
  \<^verbatim>\<open>lastIndex\<close>.
\<close>

function extract_loop :: "jsstr \<Rightarrow> nat \<Rightarrow> part list \<Rightarrow> part list \<times> nat" where
  "extract_loop text lastIndex parts =
     (case exec_from text lastIndex of
        None \<Rightarrow> (parts, lastIndex)
      | Some m \<Rightarrow>
          extract_loop text (m_index m + length (m_all m))
            ((if m_index m > lastIndex
              then parts @ [TextPart (slice text lastIndex (m_index m))] else parts)
             @ [CitationPart (m_all m) (m_pages m)]))"
  by pat_completeness auto
termination
proof (relation "measure (\<lambda>(tx, lastIndex, parts). length tx - lastIndex)")
  show "wf (measure (\<lambda>(tx, lastIndex, parts). length tx - lastIndex))" by simp
next
  fix tx lastIndex and parts :: "part list" and m
  assume "exec_from tx lastIndex = Some m"
  from exec_from_Some [OF this]
  have a: "lastIndex \<le> m_index m" and b: "m_all m \<noteq> []"
    and c: "m_index m + length (m_all m) \<le> length tx" by simp_all
  from b have "0 < length (m_all m)" by simp
  with a have "lastIndex < m_index m + length (m_all m)" by arith
  with c show "((tx, m_index m + length (m_all m),
          (if lastIndex < m_index m
           then parts @ [TextPart (slice tx lastIndex (m_index m))] else parts)
          @ [CitationPart (m_all m) (m_pages m)]),
         (tx, lastIndex, parts))
        \<in> measure (\<lambda>(tx, lastIndex, parts). length tx - lastIndex)"
    by simp
qed

declare extract_loop.simps [simp del]

definition extractCitations :: "jsstr \<Rightarrow> part list" where
  "extractCitations text =
     (let (parts, lastIndex) = extract_loop text 0 [];
          parts = (if lastIndex < length text
                   then parts @ [TextPart (slice text lastIndex (length text))] else parts)
      in if length parts > 0 then parts else [TextPart text])"

text \<open>
  ChatMessage renders a part as a highlighted citation exactly when its type is
  \<^verbatim>\<open>'citation'\<close>.
\<close>

fun is_citation :: "part \<Rightarrow> bool" where
  "is_citation (CitationPart c p) = True"
| "is_citation (TextPart c) = False"

section \<open>The API service\<close>

text \<open>
  A promise settles: it resolves with a value or it rejects. The rejection carries
  \<^verbatim>\<open>error.response?.data?.detail\<close> (None when it is undefined), the one thing a caller
  reads from the error.
\<close>

datatype 'a settled = Resolved 'a | Rejected "jsstr option"

text \<open>The body that sendMessage posts to \<^verbatim>\<open>/chat\<close>; a null document_id is None.\<close>

record chat_request =
  rq_question :: jsstr
  rq_session_id :: jsstr
  rq_document_id :: "jsstr option"

text \<open>\<^verbatim>\<open>response.data\<close> of \<^verbatim>\<open>/chat\<close>, as far as ChatPanel reads it.\<close>

record 'src chat_response =
  answer :: jsstr
  rs_timestamp :: jsstr
  rs_sources :: 'src

text \<open>
  \<^verbatim>\<open>sendMessage(question, sessionId, documentId)\<close>. The backend behind \<^verbatim>\<open>api.post\<close> is the
  parameter \<open>post\<close>; the result is the settled promise and the requests that went out.
\<close>

definition sendMessage ::
  "(chat_request \<Rightarrow> 'r settled) \<Rightarrow> jsstr \<Rightarrow> jsstr \<Rightarrow> jsstr option
     \<Rightarrow> 'r settled \<times> chat_request list" where
  "sendMessage post question sessionId documentId =
     (let body = \<lparr>rq_question = question, rq_session_id = sessionId,
                  rq_document_id = documentId\<rparr>
      in (post body, [body]))"

section \<open>ChatPanel\<close>

datatype role = User | Assistant

record 'src message =
  msg_role :: role
  msg_content :: jsstr
  msg_timestamp :: jsstr
  msg_sources :: "'src option"

text \<open>The state of the component: the three \<^verbatim>\<open>useState\<close> cells.\<close>

record 'src chat_state =
  messages :: "'src message list"
  inputValue :: jsstr
  isLoading :: bool

text \<open>
  \<^verbatim>\<open>!documentId\<close>: null and the empty string are falsy.
\<close>

fun falsy :: "jsstr option \<Rightarrow> bool" where
  "falsy None = True"
| "falsy (Some s) = (s = [])"

definition errorContent :: jsstr where
  "errorContent =
     js ''Sorry, I encountered an error. Please make sure LM Studio is running and try again.''"

text \<open>
  handleSend is an async function; it runs in two steps. The first runs up to the
  \<^verbatim>\<open>await\<close>: the guard, the user message, the reset of the input, the loading flag and the
  call of sendMessage. It returns the new state, the pending promise (None when the guard
  returned early) and the requests issued. \<open>now\<close> is \<^verbatim>\<open>new Date().toISOString()\<close>.
\<close>

definition handleSend_begin ::
  "(chat_request \<Rightarrow> 'src chat_response settled) \<Rightarrow> jsstr \<Rightarrow> jsstr option \<Rightarrow> jsstr
     \<Rightarrow> 'src chat_state
     \<Rightarrow> 'src chat_state \<times> 'src chat_response settled option \<times> chat_request list" where
  "handleSend_begin post now documentId sessionId st =
     (if trim (inputValue st) = [] \<or> isLoading st then (st, None, [])
      else
        let userMessage = \<lparr>msg_role = User, msg_content = inputValue st,
                             msg_timestamp = now, msg_sources = None\<rparr>;
            (promise, sent) = sendMessage post (inputValue st) sessionId documentId
        in (st\<lparr>messages := messages st @ [userMessage], inputValue := [],
                isLoading := True\<rparr>,
            Some promise, sent))"

text \<open>
  The second step runs when the promise settles: the \<^verbatim>\<open>try\<close> continues after the
  \<^verbatim>\<open>await\<close>, or the \<^verbatim>\<open>catch\<close> runs, and then the \<^verbatim>\<open>finally\<close>.
\<close>

definition handleSend_settle ::
  "'src chat_response settled \<Rightarrow> jsstr \<Rightarrow> 'src chat_state \<Rightarrow> 'src chat_state" where
  "handleSend_settle promise now st =
     (case promise of
        Resolved response \<Rightarrow>
          st\<lparr>messages := messages st @
                [\<lparr>msg_role = Assistant, msg_content = answer response,
                  msg_timestamp = rs_timestamp response,
                  msg_sources = Some (rs_sources response)\<rparr>],
             isLoading := False\<rparr>
      | Rejected detail \<Rightarrow>
          st\<lparr>messages := messages st @
                [\<lparr>msg_role = Assistant, msg_content = errorContent,
                  msg_timestamp = now, msg_sources = None\<rparr>],
             isLoading := False\<rparr>)"

text \<open>A send from its start to its end, nothing else happening in between.\<close>

definition handleSend ::
  "(chat_request \<Rightarrow> 'src chat_response settled) \<Rightarrow> jsstr \<Rightarrow> jsstr \<Rightarrow> jsstr option \<Rightarrow> jsstr
     \<Rightarrow> 'src chat_state \<Rightarrow> 'src chat_state \<times> chat_request list" where
  "handleSend post now now' documentId sessionId st =
     (case handleSend_begin post now documentId sessionId st of
        (st', None, sent) \<Rightarrow> (st', sent)
      | (st', Some promise, sent) \<Rightarrow> (handleSend_settle promise now' st', sent))"

definition clearChat :: "'src chat_state \<Rightarrow> 'src chat_state" where
  "clearChat st = st\<lparr>messages := []\<rparr>"

definition exampleQuestions :: "jsstr list" where
  "exampleQuestions =
     [js ''What is the recommended dosage for ulcerative colitis?'',
      js ''What are the boxed warnings?'',
      js ''Is RINVOQ contraindicated in hepatic impairment?'',
      js ''What are the common adverse reactions?'',
      js ''What should be evaluated before initiating treatment?'']"

text \<open>
  The \<^verbatim>\<open>disabled\<close> attributes of the textarea and of the Send button, as rendered.
\<close>

definition textarea_disabled :: "jsstr option \<Rightarrow> 'src chat_state \<Rightarrow> bool" where
  "textarea_disabled documentId st \<longleftrightarrow> falsy documentId \<or> isLoading st"

definition send_disabled :: "jsstr option \<Rightarrow> 'src chat_state \<Rightarrow> bool" where
  "send_disabled documentId st \<longleftrightarrow>
     trim (inputValue st) = [] \<or> falsy documentId \<or> isLoading st"

text \<open>
  \<^verbatim>\<open>handleKeyPress\<close>: Enter without Shift sends.
\<close>

definition handleKeyPress ::
  "(chat_request \<Rightarrow> 'src chat_response settled) \<Rightarrow> jsstr \<Rightarrow> jsstr option \<Rightarrow> jsstr
     \<Rightarrow> jsstr \<Rightarrow> bool \<Rightarrow> 'src chat_state
     \<Rightarrow> 'src chat_state \<times> 'src chat_response settled option \<times> chat_request list" where
  "handleKeyPress post now documentId sessionId key shiftKey st =
     (if key = js ''Enter'' \<and> \<not> shiftKey
      then handleSend_begin post now documentId sessionId st
      else (st, None, []))"

text \<open>
  What can happen to a mounted ChatPanel: the user edits the textarea, clicks an example
  question, presses a key in the textarea, clicks Send, clicks Clear Chat, or the pending
  promise of a send settles. A disabled control delivers no event; the example questions
  are rendered while there is no message, the Clear Chat button while there is one.
\<close>

datatype 'src chat_event =
    Change jsstr
  | ClickExample nat
  | KeyPress jsstr bool
  | ClickSend
  | ClickClear
  | Settle "'src chat_response settled"

fun chat_step ::
  "(chat_request \<Rightarrow> 'src chat_response settled) \<Rightarrow> jsstr \<Rightarrow> jsstr option \<Rightarrow> jsstr
     \<Rightarrow> 'src chat_event \<Rightarrow> 'src chat_state \<Rightarrow> 'src chat_state \<times> chat_request list" where
  "chat_step post now documentId sessionId (Change v) st =
     (if textarea_disabled documentId st then (st, []) else (st\<lparr>inputValue := v\<rparr>, []))"
| "chat_step post now documentId sessionId (ClickExample i) st =
     (if messages st = [] \<and> i < length exampleQuestions
      then (st\<lparr>inputValue := exampleQuestions ! i\<rparr>, []) else (st, []))"
| "chat_step post now documentId sessionId (KeyPress key shiftKey) st =
     (if textarea_disabled documentId st then (st, [])
      else case handleKeyPress post now documentId sessionId key shiftKey st of
             (st', promise, sent) \<Rightarrow> (st', sent))"
| "chat_step post now documentId sessionId ClickSend st =
     (if send_disabled documentId st then (st, [])
      else case handleSend_begin post now documentId sessionId st of
             (st', promise, sent) \<Rightarrow> (st', sent))"
| "chat_step post now documentId sessionId ClickClear st =
     (if messages st \<noteq> [] then (clearChat st, []) else (st, []))"
| "chat_step post now documentId sessionId (Settle promise) st =
     (handleSend_settle promise now st, [])"


text \<open>
  \<open>not_clear\<close>: any event but the click on Clear Chat. \<open>quiet\<close>: neither that click nor the
  settling of a promise.
\<close>

fun not_clear :: "'src chat_event \<Rightarrow> bool" where
  "not_clear ClickClear = False"
| "not_clear ev = True"







section \<open>App and UploadPanel\<close>

text \<open>\<^verbatim>\<open>response.data\<close> of \<^verbatim>\<open>/upload\<close>, as far as App reads it.\<close>

record upload_result =
  document_id :: jsstr
  filename :: jsstr
  page_count :: nat
  chunk_count :: nat

text \<open>
  The state of App that uploads and the chat panel touch (the health indicator
  \<^verbatim>\<open>apiStatus\<close> is set on mount only and read by the header only).
\<close>

record app_state =
  sessionId :: jsstr
  documentId :: "jsstr option"
  documentInfo :: "upload_result option"
  isProcessing :: bool
  error :: "jsstr option"

definition handleUploadSuccess :: "upload_result \<Rightarrow> app_state \<Rightarrow> app_state" where
  "handleUploadSuccess result app =
     app\<lparr>documentId := Some (document_id result), documentInfo := Some result,
         error := None\<rparr>"

definition handleUploadError :: "jsstr \<Rightarrow> app_state \<Rightarrow> app_state" where
  "handleUploadError errorMessage app =
     app\<lparr>error := Some errorMessage, documentId := None, documentInfo := None\<rparr>"

text \<open>
  \<^verbatim>\<open>{documentId ? <ChatPanel documentId={documentId} sessionId={sessionId} /> : ...}\<close>
\<close>

definition renders_ChatPanel :: "app_state \<Rightarrow> bool" where
  "renders_ChatPanel app \<longleftrightarrow> \<not> falsy (documentId app)"

record js_file =
  file_name :: jsstr

record upload_panel =
  uploadProgress :: nat
  uploadedFile :: "js_file option"

text \<open>
  \<^verbatim>\<open>onDrop\<close>. The parameter \<open>uploadPDF\<close> stands for the call of the API service: the
  percentages it reports through \<^verbatim>\<open>onProgress\<close>, in order, and how its promise settles.
  The \<^verbatim>\<open>finally\<close> block only sets a timer; \<open>onDrop_timer\<close> is what runs when it fires.
\<close>

definition onDrop ::
  "(js_file \<Rightarrow> nat list \<times> upload_result settled) \<Rightarrow> js_file list
     \<Rightarrow> app_state \<times> upload_panel \<Rightarrow> app_state \<times> upload_panel" where
  "onDrop uploadPDF acceptedFiles st =
     (case st of (app, panel) \<Rightarrow>
       (case acceptedFiles of
          [] \<Rightarrow> (app, panel)
        | file # _ \<Rightarrow>
            let panel = panel\<lparr>uploadedFile := Some file\<rparr>;
                app = app\<lparr>isProcessing := True\<rparr>;
                panel = panel\<lparr>uploadProgress := 0\<rparr>;
                (progress, promise) = uploadPDF file;
                panel = foldl (\<lambda>p n. p\<lparr>uploadProgress := n\<rparr>) panel progress
            in case promise of
                 Resolved result \<Rightarrow>
                   (handleUploadSuccess result app, panel\<lparr>uploadProgress := 100\<rparr>)
               | Rejected detail \<Rightarrow>
                   (handleUploadError
                      (case detail of
                         None \<Rightarrow> js ''Failed to upload PDF''
                       | Some d \<Rightarrow> if d = [] then js ''Failed to upload PDF'' else d)
                      app,
                    panel\<lparr>uploadedFile := None\<rparr>)))"

definition onDrop_timer :: "app_state \<times> upload_panel \<Rightarrow> app_state \<times> upload_panel" where
  "onDrop_timer st =
     (case st of (app, panel) \<Rightarrow> (app\<lparr>isProcessing := False\<rparr>, panel\<lparr>uploadProgress := 0\<rparr>))"

text \<open>
  The page: the application, the upload panel and the chat panel. ChatPanel keeps its
  state in its own \<^verbatim>\<open>useState\<close> cells, so the state lives as long as the component is
  mounted: when App stops rendering ChatPanel the state is gone, and when App renders it
  again a new one starts from the initial values. While App keeps rendering it, also
  with another documentId, the state stays.
\<close>

definition chat_init :: "'src chat_state" where
  "chat_init = \<lparr>messages = [], inputValue = [], isLoading = False\<rparr>"

definition mount :: "app_state \<Rightarrow> 'src chat_state option \<Rightarrow> 'src chat_state option" where
  "mount app chat =
     (if renders_ChatPanel app
      then (case chat of None \<Rightarrow> Some chat_init | Some c \<Rightarrow> Some c)
      else None)"

text \<open>
  What can happen on the page: an event of the chat panel (when it is mounted), a drop of
  files on the upload panel (the drop zone is disabled while \<^verbatim>\<open>isProcessing\<close> holds), or
  the timer of a drop.
\<close>

datatype 'src page_event =
    PanelEvent "'src chat_event"
  | Drop "js_file \<Rightarrow> nat list \<times> upload_result settled" "js_file list"
  | TimerFires

fun page_step ::
  "(chat_request \<Rightarrow> 'src chat_response settled) \<Rightarrow> jsstr \<Rightarrow> 'src page_event
     \<Rightarrow> app_state \<times> upload_panel \<times> 'src chat_state option
     \<Rightarrow> (app_state \<times> upload_panel \<times> 'src chat_state option) \<times> chat_request list" where
  "page_step post now (PanelEvent ev) (app, panel, chat) =
     (case chat of
        None \<Rightarrow> ((app, panel, None), [])
      | Some c \<Rightarrow>
          (case chat_step post now (documentId app) (sessionId app) ev c of
             (c', sent) \<Rightarrow> ((app, panel, Some c'), sent)))"
| "page_step post now (Drop uploadPDF acceptedFiles) (app, panel, chat) =
     (if isProcessing app then ((app, panel, chat), [])
      else case onDrop uploadPDF acceptedFiles (app, panel) of
             (app', panel') \<Rightarrow> ((app', panel', mount app' chat), []))"
| "page_step post now TimerFires (app, panel, chat) =
     (case onDrop_timer (app, panel) of
        (app', panel') \<Rightarrow> ((app', panel', mount app' chat), []))"

text \<open>The transcript on the page: the messages of the chat panel, if it is mounted.\<close>

definition transcript ::
  "app_state \<times> upload_panel \<times> 'src chat_state option \<Rightarrow> 'src message list" where
  "transcript page =
     (case page of (app, panel, chat) \<Rightarrow>
        (case chat of None \<Rightarrow> [] | Some c \<Rightarrow> messages c))"

definition mounted :: "app_state \<times> upload_panel \<times> 'src chat_state option \<Rightarrow> bool" where
  "mounted page = (case page of (app, panel, chat) \<Rightarrow> chat \<noteq> None)"

text \<open>
  Uploads in sequence. The drop zone is disabled while \<^verbatim>\<open>isProcessing\<close> holds, so the next
  drop comes after the timer of the one before. Each drop has its own files and its own
  behaviour of the API service.
\<close>

definition app_init :: "jsstr \<Rightarrow> app_state" where
  "app_init sid =
     \<lparr>sessionId = sid, documentId = None, documentInfo = None, isProcessing = False,
      error = None\<rparr>"

definition panel_init :: upload_panel where
  "panel_init = \<lparr>uploadProgress = 0, uploadedFile = None\<rparr>"

fun run_drops ::
  "((js_file \<Rightarrow> nat list \<times> upload_result settled) \<times> js_file list) list
     \<Rightarrow> app_state \<times> upload_panel \<Rightarrow> app_state \<times> upload_panel" where
  "run_drops [] st = st"
| "run_drops ((uploadPDF, acceptedFiles) # rest) st =
     run_drops rest (onDrop_timer (onDrop uploadPDF acceptedFiles st))"

text \<open>A drop that uploads nothing, or whose upload is rejected.\<close>

fun upload_fails :: "(js_file \<Rightarrow> nat list \<times> upload_result settled) \<times> js_file list \<Rightarrow> bool" where
  "upload_fails (uploadPDF, []) = True"
| "upload_fails (uploadPDF, file # rest) =
     (case snd (uploadPDF file) of Rejected detail \<Rightarrow> True | Resolved result \<Rightarrow> False)"

section \<open>Conversation Memory\<close>

text \<open>
  Modelled from the spec: the backend module of the conversation memory is not among the
  sources; the definitions of this section follow section 4.5 and the data model of the
  specification. An entry is (role, text, timestamp); the memory has its capacity \<open>N\<close>,
  counted in exchanges, and the entries of each session, oldest first. A session that
  has had no turn has no entries.
\<close>

record entry =
  e_role :: role
  e_text :: string
  e_timestamp :: nat

record memory =
  capacity :: nat
  sessions :: "string \<rightharpoonup> entry list"

text \<open>
  Modelled from the spec: "Eviction: strict FIFO at exchange granularity - oldest
  (user, assistant) pair dropped first once capacity N exchanges is exceeded". While there
  are more than \<open>2 * N\<close> entries, the two oldest go.
\<close>

function evict :: "nat \<Rightarrow> entry list \<Rightarrow> entry list" where
  "evict N es = (if length es > 2 * N then evict N (drop 2 es) else es)"
  by pat_completeness auto
termination
  by (relation "measure (\<lambda>(N, es). length es)") auto

declare evict.simps [simp del]

text \<open>
  Modelled from the spec: \<^verbatim>\<open>get(session_id) -> ordered entries, oldest first\<close>.
\<close>

definition memory_get :: "memory \<Rightarrow> string \<Rightarrow> entry list" where
  "memory_get mem session_id =
     (case sessions mem session_id of None \<Rightarrow> [] | Some es \<Rightarrow> es)"

text \<open>
  Modelled from the spec: \<^verbatim>\<open>append(session_id, role, text)\<close>; the timestamp of the entry
  is the reading \<open>now\<close> of the clock.
\<close>

definition memory_append :: "memory \<Rightarrow> string \<Rightarrow> role \<Rightarrow> string \<Rightarrow> nat \<Rightarrow> memory" where
  "memory_append mem session_id r txt now =
     mem\<lparr>sessions := (sessions mem)(session_id \<mapsto>
       evict (capacity mem)
         (memory_get mem session_id @ [\<lparr>e_role = r, e_text = txt, e_timestamp = now\<rparr>]))\<rparr>"

text \<open>Modelled from the spec: \<^verbatim>\<open>clear(session_id)\<close>.\<close>

definition memory_clear :: "memory \<Rightarrow> string \<Rightarrow> memory" where
  "memory_clear mem session_id = mem\<lparr>sessions := (sessions mem)(session_id := None)\<rparr>"

text \<open>
  An exchange is a question with its answer and the two clock readings; appending it
  appends the user entry and then the assistant entry.
\<close>

record exchange =
  x_question :: string
  x_asked :: nat
  x_answer :: string
  x_answered :: nat

definition exchange_entries :: "exchange \<Rightarrow> entry list" where
  "exchange_entries x =
     [\<lparr>e_role = User, e_text = x_question x, e_timestamp = x_asked x\<rparr>,
      \<lparr>e_role = Assistant, e_text = x_answer x, e_timestamp = x_answered x\<rparr>]"

definition append_exchange :: "memory \<Rightarrow> string \<Rightarrow> exchange \<Rightarrow> memory" where
  "append_exchange mem session_id x =
     memory_append (memory_append mem session_id User (x_question x) (x_asked x))
       session_id Assistant (x_answer x) (x_answered x)"

definition append_exchanges :: "memory \<Rightarrow> string \<Rightarrow> exchange list \<Rightarrow> memory" where
  "append_exchanges mem session_id xs =
     foldl (\<lambda>m x. append_exchange m session_id x) mem xs"

definition lastn :: "nat \<Rightarrow> 'a list \<Rightarrow> 'a list" where
  "lastn k xs = drop (length xs - k) xs"

section \<open>Prompt/Citation Assembler\<close>

text \<open>
  Modelled from the spec: the backend module that checks and appends citations is not
  among the sources; the definitions of this section follow section 4.6 and the data
  model of the specification. A chunk has the fields of the data model; a retrieved
  context is the ordered list of (chunk, raw similarity, boosted similarity).
\<close>

record chunk =
  ch_chunk_id :: string
  ch_document_id :: string
  ch_sequence_index :: nat
  ch_text :: string
  ch_token_count :: nat
  ch_source_page_numbers :: "nat list"
  ch_section_label :: "string option"
  ch_contains_table :: bool
  ch_overlap_with_previous :: bool

type_synonym retrieved_context = "(chunk \<times> real \<times> real) list"

text \<open>Modelled from the spec: a page number in decimal, as it stands in a citation.\<close>

function str_nat :: "nat \<Rightarrow> string" where
  "str_nat n =
     (if n < 10 then [''0123456789'' ! n]
      else str_nat (n div 10) @ [''0123456789'' ! (n mod 10)])"
  by pat_completeness auto
termination
  by (relation "measure id") auto

declare str_nat.simps [simp del]

text \<open>
  Modelled from the spec: "the distinct source_page_numbers of RetrievedContext,
  de-duplicated and sorted ascending".
\<close>

definition source_pages :: "retrieved_context \<Rightarrow> nat list" where
  "source_pages ctx = concat (map (\<lambda>(c, raw, boosted). ch_source_page_numbers c) ctx)"

definition context_pages :: "retrieved_context \<Rightarrow> nat list" where
  "context_pages ctx = sort (remdups (source_pages ctx))"

text \<open>
  Modelled from the spec: "formatted (Page N) for a single page or (Pages N, M, and K)
  for multiple (oxford-comma style)"; for two pages the specification gives
  \<^verbatim>\<open>(Pages 9 and 12)\<close>. Without a page there is no citation.
\<close>

fun join_pages :: "nat list \<Rightarrow> string" where
  "join_pages [] = []"
| "join_pages [k] = ''and '' @ str_nat k"
| "join_pages (n # ns) = str_nat n @ '', '' @ join_pages ns"

fun format_citation :: "nat list \<Rightarrow> string" where
  "format_citation [] = []"
| "format_citation [n] = ''(Page '' @ str_nat n @ '')''"
| "format_citation [n, m] = ''(Pages '' @ str_nat n @ '' and '' @ str_nat m @ '')''"
| "format_citation ns = ''(Pages '' @ join_pages ns @ '')''"

text \<open>
  Modelled from the spec: \<^verbatim>\<open>validate_and_fix(generated_text, RetrievedContext)\<close>. "If
  generated_text already contains a recognizable page-citation referencing at least one
  page present in RetrievedContext, return unchanged. Otherwise append a synthesized
  citation". The specification does not say which citations are recognizable: the
  recogniser is the parameter \<open>cited_pages\<close>, the pages that the citations recognised in a
  text refer to. For an empty context nothing is appended; the phrase that the
  specification expects there is not modelled.
\<close>

definition validate_and_fix ::
  "(string \<Rightarrow> nat list) \<Rightarrow> string \<Rightarrow> retrieved_context \<Rightarrow> string" where
  "validate_and_fix cited_pages generated_text ctx =
     (if \<exists>p \<in> set (cited_pages generated_text). p \<in> set (context_pages ctx)
      then generated_text
      else generated_text @ format_citation (context_pages ctx))"

lemmas citation_eval =
  exec_from.simps extract_loop.simps extractCitations_def slice_def citation_at_def
  citation_paths_def js_def rx_open_def rx_pages_def rx_close_def lit_def lit_i_def
  is_space_def is_digit_def ascii_upper_def

section \<open>Properties of extractCitations\<close>

lemma extract_loop_inv:
  "extract_loop tx i ps = (ps', j) \<Longrightarrow> i \<le> length tx \<Longrightarrow>
   concat (map content ps) = take i tx \<Longrightarrow>
   j \<le> length tx \<and> concat (map content ps') = take j tx"
proof (induction tx i ps rule: extract_loop.induct)
  case (1 tx lastIndex parts)
  show ?case
  proof (cases "exec_from tx lastIndex")
    case None
    with "1.prems" show ?thesis by (simp add: extract_loop.simps [of tx lastIndex])
  next
    case (Some m)
    let ?e = "m_index m + length (m_all m)"
    let ?ps = "(if m_index m > lastIndex
              then parts @ [TextPart (slice tx lastIndex (m_index m))] else parts)
             @ [CitationPart (m_all m) (m_pages m)]"
    from exec_from_Some [OF Some] have le: "lastIndex \<le> m_index m"
      and e: "?e \<le> length tx"
      and all: "m_all m = take (length (m_all m)) (drop (m_index m) tx)" by auto
    have rec: "extract_loop tx ?e ?ps = (ps', j)"
      using "1.prems"(1) Some by (simp add: extract_loop.simps [of tx lastIndex])
    have "take lastIndex tx @ slice tx lastIndex (m_index m) = take (m_index m) tx"
      using le by (metis slice_def le_add_diff_inverse take_add)
    then have "concat (map content ?ps) = take (m_index m) tx @ m_all m"
      using "1.prems"(3) le by (auto simp: slice_def)
    also have "\<dots> = take ?e tx"
      using all by (metis take_add)
    finally have "concat (map content ?ps) = take ?e tx" .
    from "1.IH" [OF Some rec e this] show ?thesis .
  qed
qed

text \<open>
  C9. extractCitations partitions its input: for every input string the list of parts is
  not empty, and the contents of the parts, concatenated in order, are the input string;
  when the pattern matches nowhere in the input, the result is the single text part that
  holds the input.
\<close>

theorem extractCitations_partition:
  "extractCitations tx \<noteq> [] \<and> concat (map content (extractCitations tx)) = tx
   \<and> (exec_from tx 0 = None \<longrightarrow> extractCitations tx = [TextPart tx])"
proof -
  obtain ps j where l: "extract_loop tx 0 [] = (ps, j)" by (cases "extract_loop tx 0 []")
  from extract_loop_inv [OF l] have j: "j \<le> length tx"
    and c: "concat (map content ps) = take j tx" by auto
  have 1: "extractCitations tx \<noteq> []" by (simp add: extractCitations_def l Let_def)
  have 2: "concat (map content (extractCitations tx)) = tx"
    using j c by (auto simp: extractCitations_def l Let_def slice_def)
  have 3: "exec_from tx 0 = None \<longrightarrow> extractCitations tx = [TextPart tx]"
    using l by (auto simp: extractCitations_def extract_loop.simps [of tx 0] slice_def)
  from 1 2 3 show ?thesis by simp
qed

theorem extractCitations_partition_witness:
  "exec_from (js ''No pages cited.'') 0 = None
   \<and> extractCitations (js ''No pages cited.'') = [TextPart (js ''No pages cited.'')]
   \<and> concat (map content (extractCitations (js ''No pages cited.''))) = js ''No pages cited.''"
proof -
  have h: "exec_from (js ''No pages cited.'') 0 = None"
    by (simp add: exec_from.simps citation_at_def citation_paths_def js_def rx_open_def
        lit_def lit_i_def ascii_upper_def)
  from h extractCitations_partition [of "js ''No pages cited.''"] show ?thesis by blast
qed

text \<open>
  C1. The claim is that every citation in a canonical format, \<^verbatim>\<open>(Page N)\<close> for one page and
  \<^verbatim>\<open>(Pages N, M, and K)\<close> for several, comes out of extractCitations as a part of type
  citation. It fails for several pages: the pattern wants white space right after
  \<^verbatim>\<open>Page\<close>, so the plural never matches. An answer that ends with \<^verbatim>\<open>(Pages 9 and 12)\<close>
  comes back as one text part, with no citation part in it.
\<close>

theorem extractCitations_plural_unrecognised:
  "extractCitations (js ''Take 15 mg once daily (Pages 9 and 12)'') =
     [TextPart (js ''Take 15 mg once daily (Pages 9 and 12)'')]
   \<and> \<not> list_ex is_citation
         (extractCitations (js ''Take 15 mg once daily (Pages 9 and 12)''))"
  by (simp add: citation_eval)

text \<open>
  The same with three pages; the format for one page is recognised, and so is a list of
  pages after the singular.
\<close>

lemma extractCitations_three_pages:
  "extractCitations (js ''See (Pages 9, 12, and 15)'') =
     [TextPart (js ''See (Pages 9, 12, and 15)'')]"
  by (simp add: citation_eval)

lemma extractCitations_single_page:
  "extractCitations (js ''Take 15 mg once daily (Page 9).'') =
     [TextPart (js ''Take 15 mg once daily ''), CitationPart (js ''(Page 9)'') (js ''9''),
      TextPart (js ''.'')]"
  by (simp add: citation_eval)

lemma extractCitations_singular_list:
  "extractCitations (js ''See (page 9, 12, and 15)'') =
     [TextPart (js ''See ''), CitationPart (js ''(page 9, 12, and 15)'') (js ''9, 12, and 15'')]"
  by (simp add: citation_eval)

section \<open>Properties of ChatPanel\<close>

lemma trim_blank: "trim s = [] \<longleftrightarrow> (\<forall>c \<in> set s. is_space c)"
proof
  assume "trim s = []"
  then have all: "\<forall>x \<in> set (dropWhile is_space s). is_space x"
    by (simp add: trim_def dropWhile_eq_Nil_conv)
  have "dropWhile is_space s = []"
  proof (rule ccontr)
    assume ne: "dropWhile is_space s \<noteq> []"
    then have "\<not> is_space (hd (dropWhile is_space s))" by (rule hd_dropWhile)
    moreover have "hd (dropWhile is_space s) \<in> set (dropWhile is_space s)"
      using ne by (rule hd_in_set)
    ultimately show False using all by blast
  qed
  then show "\<forall>c \<in> set s. is_space c" by (simp add: dropWhile_eq_Nil_conv)
next
  assume "\<forall>c \<in> set s. is_space c"
  then show "trim s = []" by (auto simp: trim_def dest: set_dropWhileD)
qed


lemma handleSend_messages:
  "messages (fst (handleSend post now now' docId sessId st)) =
     (if trim (inputValue st) = [] \<or> isLoading st then messages st
      else messages st @
        [\<lparr>msg_role = User, msg_content = inputValue st, msg_timestamp = now,
          msg_sources = None\<rparr>,
         (case post \<lparr>rq_question = inputValue st, rq_session_id = sessId,
                     rq_document_id = docId\<rparr> of
            Resolved response \<Rightarrow>
              \<lparr>msg_role = Assistant, msg_content = answer response,
               msg_timestamp = rs_timestamp response,
               msg_sources = Some (rs_sources response)\<rparr>
          | Rejected detail \<Rightarrow>
              \<lparr>msg_role = Assistant, msg_content = errorContent, msg_timestamp = now',
               msg_sources = None\<rparr>)])"
  by (simp add: handleSend_def handleSend_begin_def handleSend_settle_def sendMessage_def
      Let_def split: settled.splits)

text \<open>
  C2. For every question that is empty or made of white space only, handleSend issues no
  chat request and changes nothing: the state, and with it the transcript, is as before.
\<close>

theorem handleSend_blank_noop:
  "\<forall>c \<in> set (inputValue st). is_space c \<Longrightarrow>
     handleSend post now now' docId sessId st = (st, [])"
  by (simp add: handleSend_def handleSend_begin_def trim_blank)

theorem handleSend_blank_noop_witness:
  "list_all is_space (inputValue \<lparr>messages = ([] :: unit message list),
       inputValue = [32, 9, 10], isLoading = False\<rparr>)
   \<and> handleSend (\<lambda>rq. Rejected None) (js ''t1'') (js ''t2'') (Some (js ''doc'')) (js ''s'')
        \<lparr>messages = ([] :: unit message list), inputValue = [32, 9, 10], isLoading = False\<rparr>
      = (\<lparr>messages = [], inputValue = [32, 9, 10], isLoading = False\<rparr>, [])"
proof -
  have h: "\<forall>c \<in> set (inputValue \<lparr>messages = ([] :: unit message list),
              inputValue = [32, 9, 10], isLoading = False\<rparr>). is_space c"
    by (simp add: is_space_def)
  from h handleSend_blank_noop [OF h] show ?thesis by (simp add: list_all_iff)
qed


lemma handleSend_begin_prefix:
  "prefix (messages st) (messages (fst (handleSend_begin post now d s st)))"
  by (simp add: handleSend_begin_def sendMessage_def Let_def)

lemma handleSend_settle_prefix:
  "prefix (messages st) (messages (handleSend_settle p now st))"
  by (simp add: handleSend_settle_def split: settled.splits)

lemma handleSend_prefix:
  "prefix (messages st) (messages (fst (handleSend post now now' d s st)))"
  by (simp add: handleSend_messages)

lemma not_clear_iff: "not_clear ev \<longleftrightarrow> ev \<noteq> ClickClear"
  by (cases ev) simp_all

lemma chat_step_prefix:
  "not_clear ev \<Longrightarrow>
     prefix (messages st) (messages (fst (chat_step post now docId sessId ev st)))"
  using handleSend_begin_prefix [of st post now docId sessId]
    handleSend_settle_prefix [of st _ now]
  by (cases ev) (auto simp: handleKeyPress_def split: prod.splits)







lemma page_step_prefix:
  assumes "pev \<noteq> PanelEvent ClickClear" and "mounted (fst (page_step post now pev page))"
  shows "prefix (transcript page) (transcript (fst (page_step post now pev page)))"
proof -
  obtain app panel chat where page: "page = (app, panel, chat)" by (cases page)
  show ?thesis
  proof (cases pev)
    case (PanelEvent ev)
    with assms(1) have nc: "not_clear ev" by (simp add: not_clear_iff)
    show ?thesis
    proof (cases chat)
      case None
      then show ?thesis by (simp add: page PanelEvent transcript_def)
    next
      case (Some c)
      from chat_step_prefix [OF nc, of c post now "documentId app" "sessionId app"]
      show ?thesis
        by (auto simp: page PanelEvent Some transcript_def split: prod.splits)
    qed
  next
    case (Drop uploadPDF acceptedFiles)
    with assms(2) show ?thesis
      by (cases chat)
        (auto simp: page transcript_def mounted_def mount_def split: prod.splits if_splits)
  next
    case TimerFires
    with assms(2) show ?thesis
      by (cases chat)
        (auto simp: page transcript_def mounted_def mount_def split: prod.splits if_splits)
  qed
qed

text \<open>
  C7, as the claim states it, fails: the clear action is not the only way for entries to
  leave the transcript. With a document loaded and two entries in the transcript, a drop
  whose upload is rejected resets documentId to null, App stops rendering ChatPanel, and
  the transcript is gone; no Clear Chat was clicked.
\<close>

theorem failed_upload_loses_transcript:
  "transcript
     (\<lparr>sessionId = js ''s'', documentId = Some (js ''old''), documentInfo = None,
       isProcessing = False, error = None\<rparr>,
      \<lparr>uploadProgress = 0, uploadedFile = None\<rparr>,
      Some \<lparr>messages = [\<lparr>msg_role = User, msg_content = js ''Dose?'',
                      msg_timestamp = js ''t1'', msg_sources = (None :: unit option)\<rparr>,
                    \<lparr>msg_role = Assistant, msg_content = js ''15 mg (Page 9)'',
                      msg_timestamp = js ''t2'', msg_sources = Some ()\<rparr>],
        inputValue = [], isLoading = False\<rparr>)
     = [\<lparr>msg_role = User, msg_content = js ''Dose?'', msg_timestamp = js ''t1'',
         msg_sources = None\<rparr>,
        \<lparr>msg_role = Assistant, msg_content = js ''15 mg (Page 9)'',
         msg_timestamp = js ''t2'', msg_sources = Some ()\<rparr>]
   \<and> Drop (\<lambda>f. ([], Rejected None)) [\<lparr>file_name = js ''bad.pdf''\<rparr>]
       \<noteq> (PanelEvent ClickClear :: unit page_event)
   \<and> transcript (fst (page_step (\<lambda>rq. Rejected None) (js ''t3'')
        (Drop (\<lambda>f. ([], Rejected None)) [\<lparr>file_name = js ''bad.pdf''\<rparr>])
        (\<lparr>sessionId = js ''s'', documentId = Some (js ''old''), documentInfo = None,
          isProcessing = False, error = None\<rparr>,
         \<lparr>uploadProgress = 0, uploadedFile = None\<rparr>,
         Some \<lparr>messages = [\<lparr>msg_role = User, msg_content = js ''Dose?'',
                         msg_timestamp = js ''t1'', msg_sources = (None :: unit option)\<rparr>,
                       \<lparr>msg_role = Assistant, msg_content = js ''15 mg (Page 9)'',
                         msg_timestamp = js ''t2'', msg_sources = Some ()\<rparr>],
           inputValue = [], isLoading = False\<rparr>)))
     = []"
  by (simp add: onDrop_def handleUploadError_def mount_def transcript_def
      renders_ChatPanel_def Let_def)

text \<open>
  C7, amended. While the chat panel stays mounted, entries leave the transcript by the
  clear action only. clearChat empties the list of messages. A send, from start to end,
  and each of its two steps alone, whether the backend call succeeds or fails, leaves the
  transcript before it as a prefix of the transcript after it; so does every event of
  the panel other than the click on Clear Chat; and so does every event of the page
  other than that click after which the chat panel is mounted. (The transcript is also
  lost when the panel is unmounted, which a failed upload does.)
\<close>

theorem only_clear_or_unmount_removes:
  "messages (clearChat st) = []
   \<and> prefix (messages st) (messages (fst (handleSend post now now' docId sessId st)))
   \<and> prefix (messages st) (messages (fst (handleSend_begin post now docId sessId st)))
   \<and> prefix (messages st) (messages (handleSend_settle promise now st))
   \<and> (ev \<noteq> ClickClear \<longrightarrow>
        prefix (messages st) (messages (fst (chat_step post now docId sessId ev st))))
   \<and> (pev \<noteq> PanelEvent ClickClear \<and> mounted (fst (page_step post now pev page)) \<longrightarrow>
        prefix (transcript page) (transcript (fst (page_step post now pev page))))"
  by (simp add: clearChat_def handleSend_begin_prefix handleSend_settle_prefix
      handleSend_prefix chat_step_prefix not_clear_iff page_step_prefix)

theorem only_clear_or_unmount_removes_witness:
  "Settle (Rejected None) \<noteq> (ClickClear :: unit chat_event)
   \<and> prefix
       [\<lparr>msg_role = User, msg_content = js ''Dose?'', msg_timestamp = js ''t1'',
         msg_sources = (None :: unit option)\<rparr>]
       (messages (fst (chat_step (\<lambda>rq. Rejected None) (js ''t2'') (Some (js ''doc'')) (js ''s'')
          (Settle (Rejected None))
          \<lparr>messages = [\<lparr>msg_role = User, msg_content = js ''Dose?'',
                         msg_timestamp = js ''t1'', msg_sources = None\<rparr>],
           inputValue = [], isLoading = True\<rparr>)))
   \<and> mounted (fst (page_step (\<lambda>rq. Rejected None) (js ''t2'')
        (Drop (\<lambda>f. ([100], Resolved \<lparr>document_id = js ''new'', filename = js ''new.pdf'',
                 page_count = 2, chunk_count = 5\<rparr>)) [\<lparr>file_name = js ''new.pdf''\<rparr>])
        (\<lparr>sessionId = js ''s'', documentId = Some (js ''old''), documentInfo = None,
          isProcessing = False, error = None\<rparr>,
         \<lparr>uploadProgress = 0, uploadedFile = None\<rparr>,
         Some \<lparr>messages = [\<lparr>msg_role = User, msg_content = js ''Dose?'',
                         msg_timestamp = js ''t1'', msg_sources = (None :: unit option)\<rparr>],
           inputValue = [], isLoading = True\<rparr>)))
   \<and> transcript (fst (page_step (\<lambda>rq. Rejected None) (js ''t2'')
        (Drop (\<lambda>f. ([100], Resolved \<lparr>document_id = js ''new'', filename = js ''new.pdf'',
                 page_count = 2, chunk_count = 5\<rparr>)) [\<lparr>file_name = js ''new.pdf''\<rparr>])
        (\<lparr>sessionId = js ''s'', documentId = Some (js ''old''), documentInfo = None,
          isProcessing = False, error = None\<rparr>,
         \<lparr>uploadProgress = 0, uploadedFile = None\<rparr>,
         Some \<lparr>messages = [\<lparr>msg_role = User, msg_content = js ''Dose?'',
                         msg_timestamp = js ''t1'', msg_sources = (None :: unit option)\<rparr>],
           inputValue = [], isLoading = True\<rparr>)))
     = [\<lparr>msg_role = User, msg_content = js ''Dose?'', msg_timestamp = js ''t1'',
         msg_sources = None\<rparr>]"
  using only_clear_or_unmount_removes [of
      "\<lparr>messages = [\<lparr>msg_role = User, msg_content = js ''Dose?'',
                      msg_timestamp = js ''t1'', msg_sources = (None :: unit option)\<rparr>],
        inputValue = [], isLoading = True\<rparr>"
      "\<lambda>rq. Rejected None" "js ''t2''" "js ''t2''" "Some (js ''doc'')" "js ''s''"
      "Rejected None" "Settle (Rejected None)"
      "Drop (\<lambda>f. ([100], Resolved \<lparr>document_id = js ''new'', filename = js ''new.pdf'',
                 page_count = 2, chunk_count = 5\<rparr>)) [\<lparr>file_name = js ''new.pdf''\<rparr>]"
      "(\<lparr>sessionId = js ''s'', documentId = Some (js ''old''), documentInfo = None,
          isProcessing = False, error = None\<rparr>,
         \<lparr>uploadProgress = 0, uploadedFile = None\<rparr>,
         Some \<lparr>messages = [\<lparr>msg_role = User, msg_content = js ''Dose?'',
                         msg_timestamp = js ''t1'', msg_sources = (None :: unit option)\<rparr>],
           inputValue = [], isLoading = True\<rparr>)"]
  by (simp add: onDrop_def handleUploadSuccess_def mount_def mounted_def transcript_def
      renders_ChatPanel_def js_def Let_def)










section \<open>Properties of App and UploadPanel\<close>

lemma onDrop_failed:
  assumes "acceptedFiles = file # rest" and "uploadPDF file = (progress, Rejected detail)"
  shows "documentId (fst (onDrop uploadPDF acceptedFiles (app, panel))) = None
         \<and> documentInfo (fst (onDrop uploadPDF acceptedFiles (app, panel))) = None
         \<and> uploadedFile (snd (onDrop uploadPDF acceptedFiles (app, panel))) = None"
  using assms by (simp add: onDrop_def handleUploadError_def Let_def)

lemma onDrop_timer_keeps:
  "documentId (fst (onDrop_timer st)) = documentId (fst st)
   \<and> documentInfo (fst (onDrop_timer st)) = documentInfo (fst st)
   \<and> uploadedFile (snd (onDrop_timer st)) = uploadedFile (snd st)"
  by (cases st) (simp add: onDrop_timer_def)

text \<open>
  C5. When an upload fails, no state of the document is left. handleUploadError resets
  documentId and documentInfo to null. After a drop whose upload is rejected, documentId
  and documentInfo of the application are null and uploadedFile of the upload panel is
  null, also once the timer of the drop has fired; the application does not render the
  chat panel, so no chat can be aimed at the failed document.
\<close>

theorem upload_failure_resets:
  assumes "acceptedFiles = file # rest" and "uploadPDF file = (progress, Rejected detail)"
    and "st' = onDrop uploadPDF acceptedFiles (app, panel)"
  shows "documentId (handleUploadError msg app) = None
         \<and> documentInfo (handleUploadError msg app) = None
         \<and> documentId (fst st') = None \<and> documentInfo (fst st') = None
         \<and> uploadedFile (snd st') = None \<and> \<not> renders_ChatPanel (fst st')
         \<and> documentId (fst (onDrop_timer st')) = None
         \<and> documentInfo (fst (onDrop_timer st')) = None
         \<and> uploadedFile (snd (onDrop_timer st')) = None
         \<and> \<not> renders_ChatPanel (fst (onDrop_timer st'))"
  using onDrop_failed [of acceptedFiles "file" rest uploadPDF progress detail app panel] assms
  by (simp add: onDrop_timer_keeps renders_ChatPanel_def handleUploadError_def)

theorem upload_failure_resets_witness:
  "[\<lparr>file_name = js ''pi.pdf''\<rparr>] = \<lparr>file_name = js ''pi.pdf''\<rparr> # []
   \<and> (\<lambda>f. ([10, 60], Rejected None)) \<lparr>file_name = js ''pi.pdf''\<rparr>
       = ([10, 60 :: nat], Rejected None :: upload_result settled)
   \<and> onDrop (\<lambda>f. ([10, 60], Rejected None)) [\<lparr>file_name = js ''pi.pdf''\<rparr>]
       (\<lparr>sessionId = js ''s'', documentId = Some (js ''old''),
         documentInfo = Some \<lparr>document_id = js ''old'', filename = js ''old.pdf'',
                               page_count = 3, chunk_count = 7\<rparr>,
         isProcessing = False, error = None\<rparr>,
        \<lparr>uploadProgress = 0, uploadedFile = Some \<lparr>file_name = js ''old.pdf''\<rparr>\<rparr>)
     = (\<lparr>sessionId = js ''s'', documentId = None, documentInfo = None,
         isProcessing = True, error = Some (js ''Failed to upload PDF'')\<rparr>,
        \<lparr>uploadProgress = 60, uploadedFile = None\<rparr>)"
  (is "?h1 \<and> ?h2 \<and> ?c")
proof -
  have h1: ?h1 by simp
  have h2: ?h2 by simp
  have c: ?c by (simp add: onDrop_def handleUploadError_def Let_def)
  from upload_failure_resets [of "[\<lparr>file_name = js ''pi.pdf''\<rparr>]" "\<lparr>file_name = js ''pi.pdf''\<rparr>" "[]"
      "\<lambda>f. ([10, 60], Rejected None)" "[10, 60]" None, OF h1 h2 c [symmetric]] h1 h2 c
  show ?thesis by blast
qed

lemma chat_step_request_document:
  "rq \<in> set (snd (chat_step post now docId sessId ev st)) \<Longrightarrow>
     rq_document_id rq = docId \<and> \<not> falsy docId"
  by (cases ev) (auto simp: textarea_disabled_def send_disabled_def handleKeyPress_def
      handleSend_begin_def sendMessage_def Let_def split: if_splits)

lemma run_drops_failed:
  "list_all upload_fails drops \<Longrightarrow> documentId (fst st) = None \<Longrightarrow>
     documentId (fst (run_drops drops st)) = None"
proof (induction drops arbitrary: st)
  case Nil
  then show ?case by simp
next
  case (Cons d drops)
  obtain uploadPDF files where d: "d = (uploadPDF, files)" by (cases d)
  obtain app panel where st: "st = (app, panel)" by (cases st)
  have "documentId (fst (onDrop uploadPDF files st)) = None"
  proof (cases files)
    case Nil
    with Cons.prems(2) show ?thesis by (simp add: onDrop_def st)
  next
    case (Cons f fs)
    with Cons.prems(1) d obtain detail where "snd (uploadPDF f) = Rejected detail"
      by (auto split: settled.splits)
    then have "uploadPDF f = (fst (uploadPDF f), Rejected detail)"
      by (metis prod.collapse)
    with Cons onDrop_failed [of files f fs uploadPDF "fst (uploadPDF f)" detail app panel]
    show ?thesis by (simp add: st)
  qed
  then have "documentId (fst (onDrop_timer (onDrop uploadPDF files st))) = None"
    by (simp add: onDrop_timer_keeps)
  with Cons.IH Cons.prems(1) show ?case by (simp add: d)
qed

text \<open>
  C10. While no document is loaded (documentId is null) the textarea and the Send button
  of the chat panel are disabled, and no event of the panel issues a chat request; a
  request that the panel does issue carries a document_id that is not null. The
  application does not render the chat panel while its documentId is null, which is the
  case as long as no upload has succeeded.
\<close>

theorem no_document_no_chat_request:
  "textarea_disabled None st \<and> send_disabled None st
   \<and> snd (chat_step post now None sessId ev st) = []
   \<and> (\<forall>rq \<in> set (snd (chat_step post now docId sessId ev st)). rq_document_id rq \<noteq> None)
   \<and> (documentId app = None \<longrightarrow> \<not> renders_ChatPanel app)
   \<and> (list_all upload_fails drops \<longrightarrow>
        \<not> renders_ChatPanel (fst (run_drops drops (app_init sid, panel_init))))"
proof -
  have 1: "textarea_disabled None st \<and> send_disabled None st"
    by (simp add: textarea_disabled_def send_disabled_def)
  have 2: "snd (chat_step post now None sessId ev st) = []"
    by (cases ev) (auto simp: textarea_disabled_def send_disabled_def)
  have 3: "\<forall>rq \<in> set (snd (chat_step post now docId sessId ev st)). rq_document_id rq \<noteq> None"
  proof
    fix rq
    assume "rq \<in> set (snd (chat_step post now docId sessId ev st))"
    from chat_step_request_document [OF this]
    show "rq_document_id rq \<noteq> None" by (cases docId) auto
  qed
  have 4: "documentId app = None \<longrightarrow> \<not> renders_ChatPanel app"
    by (simp add: renders_ChatPanel_def)
  have 5: "list_all upload_fails drops \<longrightarrow>
        \<not> renders_ChatPanel (fst (run_drops drops (app_init sid, panel_init)))"
    using run_drops_failed [of drops "(app_init sid, panel_init)"]
    by (simp add: renders_ChatPanel_def app_init_def)
  from 1 2 3 4 5 show ?thesis by blast
qed

theorem no_document_no_chat_request_witness:
  "snd (chat_step (\<lambda>rq. Rejected None) (js ''t1'') (Some (js ''doc'')) (js ''s'') ClickSend
      \<lparr>messages = ([] :: unit message list), inputValue = js ''Dose?'', isLoading = False\<rparr>)
     = [\<lparr>rq_question = js ''Dose?'', rq_session_id = js ''s'',
         rq_document_id = Some (js ''doc'')\<rparr>]
   \<and> snd (chat_step (\<lambda>rq. Rejected None) (js ''t1'') None (js ''s'') ClickSend
      \<lparr>messages = ([] :: unit message list), inputValue = js ''Dose?'', isLoading = False\<rparr>)
     = []
   \<and> documentId (app_init (js ''s'')) = None
   \<and> \<not> renders_ChatPanel (app_init (js ''s''))
   \<and> list_all upload_fails [(\<lambda>f. ([10], Rejected None), [\<lparr>file_name = js ''pi.pdf''\<rparr>])]
   \<and> \<not> renders_ChatPanel (fst (run_drops
        [(\<lambda>f. ([10], Rejected None), [\<lparr>file_name = js ''pi.pdf''\<rparr>])]
        (app_init (js ''s''), panel_init)))"
  using no_document_no_chat_request [of
      "\<lparr>messages = ([] :: unit message list), inputValue = js ''Dose?'', isLoading = False\<rparr>"
      "\<lambda>rq. Rejected None" "js ''t1''" "js ''s''" ClickSend "Some (js ''doc'')"
      "app_init (js ''s'')"
      "[(\<lambda>f. ([10], Rejected None), [\<lparr>file_name = js ''pi.pdf''\<rparr>])]" "js ''s''"]
  by (simp add: send_disabled_def handleSend_begin_def sendMessage_def trim_def is_space_def
      js_def app_init_def)

section \<open>Properties of the Conversation Memory\<close>

lemma evict_fits: "length es \<le> 2 * N \<Longrightarrow> evict N es = es"
  by (simp add: evict.simps)

lemma evict_one_over: "length es = 2 * N + 1 \<Longrightarrow> evict N es = drop 2 es"
  by (subst evict.simps) (simp add: evict_fits)

lemma length_evict: "length (evict N es) \<le> 2 * N"
  by (induction N es rule: evict.induct) (subst evict.simps, simp)

lemma memory_get_append:
  "memory_get (memory_append mem sid r t n) sid =
     evict (capacity mem) (memory_get mem sid @ [\<lparr>e_role = r, e_text = t, e_timestamp = n\<rparr>])"
  by (simp add: memory_append_def memory_get_def)

lemma memory_get_append_exchange:
  assumes "even (length (memory_get mem sid))"
    and "length (memory_get mem sid) \<le> 2 * capacity mem"
  shows "memory_get (append_exchange mem sid x) sid =
           lastn (2 * capacity mem) (memory_get mem sid @ exchange_entries x)"
proof -
  let ?N = "capacity mem"
  let ?es = "memory_get mem sid"
  let ?u = "\<lparr>e_role = User, e_text = x_question x, e_timestamp = x_asked x\<rparr>"
  let ?a = "\<lparr>e_role = Assistant, e_text = x_answer x, e_timestamp = x_answered x\<rparr>"
  have cap: "capacity (memory_append mem sid User (x_question x) (x_asked x)) = ?N"
    by (simp add: memory_append_def)
  have step: "memory_get (append_exchange mem sid x) sid =
      evict ?N (evict ?N (?es @ [?u]) @ [?a])"
    by (simp add: append_exchange_def memory_get_append cap)
  from assms(1) obtain b where b: "length ?es = 2 * b" by (auto elim: evenE)
  with assms(2) have "b < ?N \<or> (b = ?N \<and> 0 < ?N) \<or> (b = 0 \<and> ?N = 0)" by arith
  with b consider (room) "length ?es + 2 \<le> 2 * ?N" | (full) "length ?es = 2 * ?N" "0 < ?N"
    | (none) "?es = []" "?N = 0"
    by auto
  then show ?thesis
  proof cases
    case room
    then show ?thesis
      by (simp add: step evict_fits lastn_def exchange_entries_def)
  next
    case full
    have "evict ?N (?es @ [?u]) = drop 2 (?es @ [?u])"
      using full by (simp add: evict_one_over)
    moreover have "length (drop 2 (?es @ [?u]) @ [?a]) \<le> 2 * ?N"
      using full by simp
    ultimately have "memory_get (append_exchange mem sid x) sid = drop 2 (?es @ [?u]) @ [?a]"
      by (simp only: step evict_fits)
    also have "\<dots> = lastn (2 * ?N) (?es @ exchange_entries x)"
      using full by (simp add: lastn_def exchange_entries_def)
    finally show ?thesis .
  next
    case none
    then show ?thesis
      by (simp add: step evict_one_over lastn_def exchange_entries_def)
  qed
qed

lemma lastn_lastn_append: "lastn k (lastn k xs @ ys) = lastn k (xs @ ys)"
  by (cases "k \<le> length xs") (simp_all add: lastn_def add.commute)

lemma length_lastn: "length (lastn k xs) = min k (length xs)"
  by (simp add: lastn_def)

lemma memory_get_append_exchanges:
  assumes "even (length (memory_get mem sid))"
    and "length (memory_get mem sid) \<le> 2 * capacity mem"
  shows "memory_get (append_exchanges mem sid xs) sid =
           lastn (2 * capacity mem) (memory_get mem sid @ concat (map exchange_entries xs))
         \<and> capacity (append_exchanges mem sid xs) = capacity mem"
  using assms
proof (induction xs arbitrary: mem)
  case Nil
  then show ?case by (simp add: append_exchanges_def lastn_def)
next
  case (Cons x xs)
  let ?m = "append_exchange mem sid x"
  have g: "memory_get ?m sid = lastn (2 * capacity mem) (memory_get mem sid @ exchange_entries x)"
    using Cons.prems by (rule memory_get_append_exchange)
  have c: "capacity ?m = capacity mem" by (simp add: append_exchange_def memory_append_def)
  have "even (length (memory_get ?m sid))"
    using Cons.prems by (simp add: g length_lastn exchange_entries_def min_def)
  moreover have "length (memory_get ?m sid) \<le> 2 * capacity ?m"
    by (simp add: g c length_lastn)
  ultimately have "memory_get (append_exchanges ?m sid xs) sid =
      lastn (2 * capacity ?m) (memory_get ?m sid @ concat (map exchange_entries xs))
      \<and> capacity (append_exchanges ?m sid xs) = capacity ?m"
    by (rule Cons.IH)
  then show ?case
    by (simp add: append_exchanges_def g c lastn_lastn_append)
qed

lemma length_exchange_entries: "length (concat (map exchange_entries ys)) = 2 * length ys"
  by (induction ys) (simp_all add: exchange_entries_def)

text \<open>
  C3. The conversation memory evicts first in, first out, by exchanges. For every session
  that holds whole exchanges within the capacity (a new session holds none), after
  \<open>capacity + 1\<close> exchanges \<open>xs\<close> have been appended to it, get returns exactly the entries
  of the last \<open>capacity\<close> of them, in order, oldest first: the first of \<open>xs\<close> is gone, and
  so is all that was there before. After every append, the session appended to has at most
  \<open>2 * capacity\<close> entries.
\<close>

theorem memory_fifo:
  assumes "even (length (memory_get mem sid))"
    and "length (memory_get mem sid) \<le> 2 * capacity mem"
    and "length xs = capacity mem + 1"
  shows "memory_get (append_exchanges mem sid xs) sid = concat (map exchange_entries (tl xs))
         \<and> length (tl xs) = capacity mem
         \<and> length (memory_get (append_exchanges mem sid xs) sid) \<le> 2 * capacity mem
         \<and> length (memory_get (memory_append mem sid r t now) sid) \<le> 2 * capacity mem"
proof -
  obtain x ys where xs: "xs = x # ys" and ys: "length ys = capacity mem"
    using assms(3) by (cases xs) auto
  have "memory_get (append_exchanges mem sid xs) sid =
          lastn (2 * capacity mem) (memory_get mem sid @ concat (map exchange_entries xs))"
    using memory_get_append_exchanges [OF assms(1,2)] by simp
  also have "\<dots> = concat (map exchange_entries ys)"
    by (simp add: xs lastn_def length_exchange_entries ys exchange_entries_def)
  finally have "memory_get (append_exchanges mem sid xs) sid = concat (map exchange_entries ys)" .
  then show ?thesis
    by (simp add: xs length_exchange_entries ys memory_get_append length_evict)
qed

theorem memory_fifo_witness:
  "even (length (memory_get \<lparr>capacity = 1, sessions = Map.empty\<rparr> ''s1''))
   \<and> length (memory_get \<lparr>capacity = 1, sessions = Map.empty\<rparr> ''s1'')
       \<le> 2 * capacity \<lparr>capacity = 1, sessions = Map.empty\<rparr>
   \<and> length [\<lparr>x_question = ''q1'', x_asked = 1, x_answer = ''a1'', x_answered = 2\<rparr>,
              \<lparr>x_question = ''q2'', x_asked = 3, x_answer = ''a2'', x_answered = 4\<rparr>]
       = capacity \<lparr>capacity = 1, sessions = Map.empty\<rparr> + 1
   \<and> memory_get (append_exchanges \<lparr>capacity = 1, sessions = Map.empty\<rparr> ''s1''
        [\<lparr>x_question = ''q1'', x_asked = 1, x_answer = ''a1'', x_answered = 2\<rparr>,
         \<lparr>x_question = ''q2'', x_asked = 3, x_answer = ''a2'', x_answered = 4\<rparr>]) ''s1''
       = [\<lparr>e_role = User, e_text = ''q2'', e_timestamp = 3\<rparr>,
          \<lparr>e_role = Assistant, e_text = ''a2'', e_timestamp = 4\<rparr>]"
  (is "?h1 \<and> ?h2 \<and> ?h3 \<and> ?c")
proof -
  have h1: ?h1 by (simp add: memory_get_def)
  have h2: ?h2 by (simp add: memory_get_def)
  have h3: ?h3 by simp
  from memory_fifo [OF h1 h2 h3] h1 h2 h3 show ?thesis
    by (simp add: exchange_entries_def)
qed

section \<open>Properties of the Prompt/Citation Assembler\<close>

lemma context_pages_set: "context_pages ctx = sorted_list_of_set (set (source_pages ctx))"
  by (simp only: context_pages_def sorted_list_of_set_sort_remdups)

lemma format_citation_examples:
  "format_citation [9] = ''(Page 9)''"
  "format_citation [9, 12] = ''(Pages 9 and 12)''"
  "format_citation [9, 12, 15] = ''(Pages 9, 12, and 15)''"
  by (simp_all add: str_nat.simps)

text \<open>
  C4. For a retrieved context whose chunks carry the source page numbers 9, 9 and 12 (the
  pages 9 and 12, in any order and with any repetition) and a generated text in which no
  citation is recognised, validate_and_fix returns the generated text with exactly
  \<^verbatim>\<open>(Pages 9 and 12)\<close> appended.
\<close>

theorem validate_and_fix_appends:
  assumes "set (source_pages ctx) = {9, 12}"
    and "cited_pages generated_text = []"
  shows "validate_and_fix cited_pages generated_text ctx =
           generated_text @ ''(Pages 9 and 12)''"
proof -
  have "context_pages ctx = [9, 12]"
    by (simp add: context_pages_set assms(1))
  then show ?thesis
    by (simp add: validate_and_fix_def assms(2) str_nat.simps)
qed

theorem validate_and_fix_appends_witness:
  "set (source_pages
     [(\<lparr>ch_chunk_id = ''c1'', ch_document_id = ''d1'', ch_sequence_index = 0,
        ch_text = ''Dosage'', ch_token_count = 1, ch_source_page_numbers = [9],
        ch_section_label = None, ch_contains_table = False,
        ch_overlap_with_previous = False\<rparr>, 1 / 2, 1 / 2),
      (\<lparr>ch_chunk_id = ''c2'', ch_document_id = ''d1'', ch_sequence_index = 1,
        ch_text = ''Warnings'', ch_token_count = 1, ch_source_page_numbers = [12, 9],
        ch_section_label = None, ch_contains_table = False,
        ch_overlap_with_previous = True\<rparr>, 1 / 3, 1 / 3)]) = {9, 12}
   \<and> (\<lambda>t. []) ''Take 15 mg once daily.'' = ([] :: nat list)
   \<and> validate_and_fix (\<lambda>t. []) ''Take 15 mg once daily.''
     [(\<lparr>ch_chunk_id = ''c1'', ch_document_id = ''d1'', ch_sequence_index = 0,
        ch_text = ''Dosage'', ch_token_count = 1, ch_source_page_numbers = [9],
        ch_section_label = None, ch_contains_table = False,
        ch_overlap_with_previous = False\<rparr>, 1 / 2, 1 / 2),
      (\<lparr>ch_chunk_id = ''c2'', ch_document_id = ''d1'', ch_sequence_index = 1,
        ch_text = ''Warnings'', ch_token_count = 1, ch_source_page_numbers = [12, 9],
        ch_section_label = None, ch_contains_table = False,
        ch_overlap_with_previous = True\<rparr>, 1 / 3, 1 / 3)]
     = ''Take 15 mg once daily.(Pages 9 and 12)''"
  (is "?h1 \<and> ?h2 \<and> ?c")
proof -
  have h1: ?h1 by (auto simp: source_pages_def)
  have h2: ?h2 by simp
  from validate_and_fix_appends [OF h1 h2] h1 show ?thesis by simp
qed

end
